theory Spec2Isabelle
  imports Main "HOL-Library.List_Lexorder" "HOL-Library.Char_ord"
begin

section \<open>Data model (types.ts)\<close>

text \<open>
  The two interfaces of \<^verbatim>\<open>types.ts\<close> become records. The field \<^verbatim>\<open>id\<close> is
  called \<open>entry_id\<close> (\<open>id\<close> is the identity function of HOL). \<^verbatim>\<open>period\<close> is a
  JavaScript number holding the integer read by \<^verbatim>\<open>parseInt\<close>; it is an \<open>int\<close> here.
  Times of day are the strings the code stores (\<^verbatim>\<open>HH:mm\<close>); strings are compared
  by code unit, which is the order of \<open>string\<close> with \<open>Char_ord\<close> and \<open>List_Lexorder\<close>.
\<close>

datatype gender = Bapak | Ibu

datatype voice = Puck | Charon | Kore | Fenrir | Zephyr

record ScheduleItem =
  entry_id :: string
  period :: int
  startTime :: string
  endTime :: string
  teacher :: string
  gender :: gender
  subject :: string
  className :: string
  isActive :: bool

record AppSettings =
  schoolName :: string
  isAutoEnabled :: bool
  voiceName :: voice

text \<open>
  The state of the component \<^verbatim>\<open>App\<close>: one field for each \<^verbatim>\<open>useState\<close>. The
  current time is the time of day of the \<^verbatim>\<open>Date\<close> (the date itself is only
  displayed).

  Each state variable is a \<^verbatim>\<open>const\<close> of one call of \<^verbatim>\<open>App\<close>, that is of one
  render. A handler is a closure made in a render: it reads the values of that render and
  writes through the setters. So a handler is a function of two states, the render \<open>r\<close>
  it reads and the state \<open>s\<close> it writes, and it returns the state written. The
  handlers of the buttons and the form are made anew by every render; for them \<open>r\<close> is
  \<open>s\<close>, and they are given as functions of \<open>s\<close> alone.
\<close>

record clock_time =
  hour :: nat
  minute :: nat
  second :: nat

record app_state =
  currentTime :: clock_time
  schedule :: "ScheduleItem list"
  settings :: AppSettings
  lastTriggered :: "string option"
  isAnnouncing :: bool
  showAddModal :: bool
  editingItem :: "ScheduleItem option"
  isLoading :: bool

definition DEFAULT_SCHEDULE :: "ScheduleItem list" where
  "DEFAULT_SCHEDULE =
    [\<lparr>entry_id = ''1'', period = 1, startTime = ''07:00'', endTime = ''07:45'',
       teacher = ''Budi Santoso'', gender = Bapak, subject = ''Matematika'',
       className = ''X-A'', isActive = True\<rparr>,
     \<lparr>entry_id = ''2'', period = 2, startTime = ''07:45'', endTime = ''08:30'',
       teacher = ''Siti Aminah'', gender = Ibu, subject = ''Bahasa Indonesia'',
       className = ''XI-B'', isActive = True\<rparr>,
     \<lparr>entry_id = ''3'', period = 3, startTime = ''08:30'', endTime = ''09:15'',
       teacher = ''Siti Aminah'', gender = Ibu, subject = ''Bahasa Indonesia'',
       className = ''XI-B'', isActive = True\<rparr>,
     \<lparr>entry_id = ''4'', period = 4, startTime = ''09:30'', endTime = ''10:15'',
       teacher = ''Joko Widodo'', gender = Bapak, subject = ''Fisika'',
       className = ''XII-C'', isActive = True\<rparr>,
     \<lparr>entry_id = ''5'', period = 5, startTime = ''10:15'', endTime = ''11:00'',
       teacher = ''Joko Widodo'', gender = Bapak, subject = ''Fisika'',
       className = ''XII-C'', isActive = True\<rparr>]"

definition DEFAULT_SETTINGS :: AppSettings where
  "DEFAULT_SETTINGS =
    \<lparr>schoolName = ''SMP ISLAM ARRAUDHOH'', isAutoEnabled = True, voiceName = Kore\<rparr>"

definition CHIME_URL :: string where
  "CHIME_URL = ''https://assets.mixkit.co/active_storage/sfx/2869/2869-preview.mp3''"

text \<open>The state of the first render, before the initial fetch has run.\<close>

definition initial_state :: "clock_time \<Rightarrow> app_state" where
  "initial_state now =
    \<lparr>currentTime = now, schedule = [], settings = DEFAULT_SETTINGS, lastTriggered = None,
     isAnnouncing = False, showAddModal = False, editingItem = None, isLoading = True\<rparr>"

section \<open>Rendering of numbers, times and union values\<close>

fun string_of_nat :: "nat \<Rightarrow> string" where
  "string_of_nat n =
    (if n < 10 then [''0123456789'' ! n]
     else string_of_nat (n div 10) @ [''0123456789'' ! (n mod 10)])"

declare string_of_nat.simps [simp del]

definition string_of_int :: "int \<Rightarrow> string" where
  "string_of_int i = (if i < 0 then ''-'' @ string_of_nat (nat (- i)) else string_of_nat (nat i))"

definition pad2 :: "nat \<Rightarrow> string" where
  "pad2 n = (if n < 10 then ''0'' @ string_of_nat n else string_of_nat n)"

text \<open>\<^verbatim>\<open>format(now, 'HH:mm')\<close> of date-fns: hours and minutes, two digits each.\<close>

definition format_HHmm :: "clock_time \<Rightarrow> string" where
  "format_HHmm t = pad2 (hour t) @ '':'' @ pad2 (minute t)"

fun string_of_gender :: "gender \<Rightarrow> string" where
  "string_of_gender Bapak = ''Bapak''"
| "string_of_gender Ibu = ''Ibu''"

text \<open>JavaScript truthiness of a value of type \<^verbatim>\<open>string | undefined\<close>.\<close>

fun truthy :: "string option \<Rightarrow> bool" where
  "truthy None = False"
| "truthy (Some s) = (s \<noteq> [])"

section \<open>The announcement text (triggerBell, step 2)\<close>

definition greeting :: string where
  "greeting = ''Assalamualaikum warahmatullohi wabarokatuh, kepada siswa SMP ISLAM ARRAUDHOH. ''"

definition announcement_text :: "ScheduleItem \<Rightarrow> string" where
  "announcement_text item =
     greeting @ '' Perhatian. Jam ke '' @ string_of_int (period item)
       @ ''. Pukul '' @ startTime item
       @ ''. '' @ string_of_gender (gender item) @ '' Guru '' @ teacher item
       @ '', pengampu mata pelajaran '' @ subject item
       @ '', dipersilakan masuk kelas '' @ className item
       @ ''. Selamat belajar.''"

text \<open>
  \<open>str_includes hay needle\<close> is \<^verbatim>\<open>hay.includes(needle)\<close>: the needle occurs in the
  text as a contiguous run of characters.
\<close>

fun starts_with :: "string \<Rightarrow> string \<Rightarrow> bool" where
  "starts_with _ [] = True"
| "starts_with [] (_ # _) = False"
| "starts_with (c # cs) (d # ds) = (c = d \<and> starts_with cs ds)"

fun str_includes :: "string \<Rightarrow> string \<Rightarrow> bool" where
  "str_includes [] needle = (needle = [])"
| "str_includes (c # cs) needle = (starts_with (c # cs) needle \<or> str_includes cs needle)"

section \<open>The world outside the component\<close>

text \<open>
  What the browser and the speech provider answer is not decided by the program; it is an
  input of the model. A promise the code awaits is resolved, rejected, or never settled.
\<close>

datatype 'a promise = Resolved 'a | Rejected | Pending

datatype chime_outcome =
    ChimeEnded          \<comment> \<open>\<^verbatim>\<open>onended\<close>\<close>
  | ChimeError          \<comment> \<open>\<^verbatim>\<open>onerror\<close>\<close>
  | ChimePlayRejected   \<comment> \<open>\<^verbatim>\<open>chime.play()\<close> rejects\<close>
  | ChimeThrows         \<comment> \<open>\<^verbatim>\<open>new Audio\<close> or \<^verbatim>\<open>play\<close> throws inside the \<^verbatim>\<open>try\<close>\<close>
  | ChimeNeverSettles   \<comment> \<open>none of the three callbacks ever runs\<close>

datatype audio_outcome =
    AudioPlays          \<comment> \<open>\<^verbatim>\<open>oncanplaythrough\<close>, then \<^verbatim>\<open>play()\<close> resolves\<close>
  | AudioPlayFails      \<comment> \<open>\<^verbatim>\<open>oncanplaythrough\<close>, then \<^verbatim>\<open>play()\<close> rejects\<close>
  | AudioLoadError      \<comment> \<open>\<^verbatim>\<open>onerror\<close>\<close>
  | AudioThrows         \<comment> \<open>\<^verbatim>\<open>new Audio()\<close> throws\<close>
  | AudioNeverSettles

record env =
  chime :: chime_outcome
  api_key :: "string option"                \<comment> \<open>\<^verbatim>\<open>process.env.GEMINI_API_KEY\<close>\<close>
  generateContent :: "string \<Rightarrow> voice \<Rightarrow> string option promise"
     \<comment> \<open>the provider's answer, read through \<^verbatim>\<open>candidates?.[0]?.content?.parts?.[0]?.inlineData?.data\<close>\<close>
  audio :: "string \<Rightarrow> audio_outcome"        \<comment> \<open>what the audio element does with a source\<close>
  speak_throws :: bool                       \<comment> \<open>the call of the browser's speech synthesis throws\<close>

text \<open>What the program asks of the outside world, in the order it asks.\<close>

datatype effect =
    ChimePlay string              \<comment> \<open>\<^verbatim>\<open>new Audio(url)\<close> and \<^verbatim>\<open>play()\<close>\<close>
  | SynthRequest string voice     \<comment> \<open>\<^verbatim>\<open>ai.models.generateContent\<close> with text and voice\<close>
  | AudioLoad string              \<comment> \<open>\<^verbatim>\<open>audio.src = ...\<close>\<close>
  | AudioPlay string              \<comment> \<open>\<^verbatim>\<open>audio.play()\<close>\<close>
  | Speak string string           \<comment> \<open>\<^verbatim>\<open>speechSynthesis.speak\<close>: text and \<^verbatim>\<open>lang\<close>\<close>
  | ConsoleWarn string
  | ConsoleError string

section \<open>services/geminiService.ts\<close>

definition generateAnnouncementAudio ::
  "env \<Rightarrow> string \<Rightarrow> voice \<Rightarrow> effect list \<times> string option promise" where
  "generateAnnouncementAudio e text v =
     (if \<not> truthy (api_key e) then ([ConsoleError ''Error generating TTS:''], Resolved None)
      else case generateContent e text v of
          Resolved d \<Rightarrow> ([SynthRequest text v], Resolved d)
        | Rejected \<Rightarrow> ([SynthRequest text v, ConsoleError ''Error generating TTS:''], Resolved None)
        | Pending \<Rightarrow> ([SynthRequest text v], Pending))"

definition playAudioFromBase64 :: "env \<Rightarrow> string \<Rightarrow> effect list \<times> unit promise" where
  "playAudioFromBase64 e base64Data =
     (if base64Data = [] then ([ConsoleError ''No audio data provided''], Rejected)
      else let audioSrc = ''data:audio/mpeg;base64,'' @ base64Data in
        case audio e audioSrc of
          AudioThrows \<Rightarrow> ([ConsoleError ''Error in playAudioFromBase64:''], Rejected)
        | AudioPlays \<Rightarrow> ([AudioLoad audioSrc, AudioPlay audioSrc], Resolved ())
        | AudioPlayFails \<Rightarrow>
            ([AudioLoad audioSrc, AudioPlay audioSrc, ConsoleError ''Playback failed:''], Rejected)
        | AudioLoadError \<Rightarrow> ([AudioLoad audioSrc, ConsoleError ''Audio loading error:''], Rejected)
        | AudioNeverSettles \<Rightarrow> ([AudioLoad audioSrc], Pending))"

section \<open>App: the announcement sequence (triggerBell)\<close>

text \<open>
  The browser fallback of both branches: a warning, then an utterance of the text with
  \<^verbatim>\<open>lang = 'id-ID'\<close> handed to \<^verbatim>\<open>speechSynthesis.speak\<close>. The call may throw.
\<close>

definition browser_tts :: "env \<Rightarrow> string \<Rightarrow> string \<Rightarrow> effect list \<times> unit promise" where
  "browser_tts e warning text =
     ([ConsoleWarn warning, Speak text ''id-ID''],
      if speak_throws e then Rejected else Resolved ())"

text \<open>
  The body of the \<^verbatim>\<open>try\<close>: the effects so far, and whether the body ran to its end
  (\<open>Resolved\<close>), threw (\<open>Rejected\<close>) or is stuck at an \<^verbatim>\<open>await\<close> (\<open>Pending\<close>).
\<close>

definition try_block :: "env \<Rightarrow> AppSettings \<Rightarrow> ScheduleItem \<Rightarrow> effect list \<times> unit promise" where
  "try_block e st item =
     (case chime e of
        ChimeThrows \<Rightarrow> ([], Rejected)
      | ChimeNeverSettles \<Rightarrow> ([ChimePlay CHIME_URL], Pending)
      | _ \<Rightarrow>
         (let text = announcement_text item;
              (fx1, r1) = generateAnnouncementAudio e text (voiceName st)
          in case r1 of
               Pending \<Rightarrow> (ChimePlay CHIME_URL # fx1, Pending)
             | Rejected \<Rightarrow> (ChimePlay CHIME_URL # fx1, Rejected)
             | Resolved audioData \<Rightarrow>
                 (if truthy audioData then
                    (let (fx2, r2) = playAudioFromBase64 e (the audioData)
                     in case r2 of
                          Resolved _ \<Rightarrow> (ChimePlay CHIME_URL # fx1 @ fx2, Resolved ())
                        | Pending \<Rightarrow> (ChimePlay CHIME_URL # fx1 @ fx2, Pending)
                        | Rejected \<Rightarrow>
                            (let (fx3, r3) = browser_tts e
                               ''Gemini audio playback failed, falling back to browser TTS:'' text
                             in (ChimePlay CHIME_URL # fx1 @ fx2 @ fx3, r3)))
                  else
                    (let (fx3, r3) = browser_tts e
                       ''No audio data from Gemini, falling back to browser TTS'' text
                     in (ChimePlay CHIME_URL # fx1 @ fx3, r3)))))"

text \<open>
  \<^verbatim>\<open>try { ... } catch (error) { console.error(...) }\<close>: the effects, and whether
  control reaches the \<^verbatim>\<open>finally\<close> (\<open>True\<close>) or the sequence never leaves an
  \<^verbatim>\<open>await\<close> (\<open>False\<close>).
\<close>

definition try_catch :: "env \<Rightarrow> AppSettings \<Rightarrow> ScheduleItem \<Rightarrow> effect list \<times> bool" where
  "try_catch e st item =
     (case try_block e st item of
        (fx, Resolved _) \<Rightarrow> (fx, True)
      | (fx, Rejected) \<Rightarrow> (fx @ [ConsoleError ''Failed to trigger bell:''], True)
      | (fx, Pending) \<Rightarrow> (fx, False))"

text \<open>
  \<^verbatim>\<open>if (isAnnouncing) return; setIsAnnouncing(true);\<close> is the part of
  \<^verbatim>\<open>triggerBell\<close> that runs before the first \<^verbatim>\<open>await\<close>: the state the other
  handlers see while the sequence is suspended, and whether a sequence has started. The
  flag tested is the one of the render \<open>r\<close> in which this \<^verbatim>\<open>triggerBell\<close> was made.
\<close>

definition triggerBell_begin :: "app_state \<Rightarrow> app_state \<Rightarrow> app_state \<times> bool" where
  "triggerBell_begin r s =
     (if isAnnouncing r then (s, False) else (s\<lparr>isAnnouncing := True\<rparr>, True))"

text \<open>\<^verbatim>\<open>finally { setIsAnnouncing(false); }\<close>\<close>

definition triggerBell_finally :: "app_state \<Rightarrow> app_state" where
  "triggerBell_finally s = s\<lparr>isAnnouncing := False\<rparr>"

text \<open>
  One whole call of \<^verbatim>\<open>triggerBell\<close> with no other handler in between: the state it
  leaves, the effects in order, and whether the call has returned.
\<close>

definition triggerBell ::
  "env \<Rightarrow> ScheduleItem \<Rightarrow> app_state \<Rightarrow> app_state \<Rightarrow> app_state \<times> effect list \<times> bool" where
  "triggerBell e item r s =
     (case triggerBell_begin r s of
        (s1, False) \<Rightarrow> (s1, [], True)
      | (s1, True) \<Rightarrow>
          (case try_catch e (settings r) item of
             (fx, True) \<Rightarrow> (triggerBell_finally s1, fx, True)
           | (fx, False) \<Rightarrow> (s1, fx, False)))"

section \<open>App: the clock and the trigger engine\<close>

text \<open>
  One run of the interval callback at the instant \<open>now\<close>: the new state, and the entry
  whose announcement sequence has started, if one has. The callback and the
  \<^verbatim>\<open>triggerBell\<close> it calls are closures of the render \<open>r\<close> in which the effect
  installed the interval.
\<close>

definition tick :: "clock_time \<Rightarrow> app_state \<Rightarrow> app_state \<Rightarrow> app_state \<times> ScheduleItem option" where
  "tick now r s =
     (let s0 = s\<lparr>currentTime := now\<rparr> in
      if isAutoEnabled (settings r) then
        (let timeStr = format_HHmm now in
         if lastTriggered r \<noteq> Some timeStr then
           (case find (\<lambda>item. isActive item \<and> startTime item = timeStr) (schedule r) of
              Some matchingItem \<Rightarrow>
                (let (s1, started) = triggerBell_begin r s0
                 in (s1\<lparr>lastTriggered := Some timeStr\<rparr>,
                     if started then Some matchingItem else None))
            | None \<Rightarrow> (s0, None))
         else (s0, None))
      else (s0, None))"

section \<open>App: the schedule store\<close>

text \<open>
  \<^verbatim>\<open>sort((a, b) => a.startTime.localeCompare(b.startTime))\<close> is a stable sort on the
  key \<^verbatim>\<open>startTime\<close>, which is \<open>sort_key startTime\<close>; on \<^verbatim>\<open>HH:mm\<close> strings the
  comparison is the comparison by code unit. The identifier that
  \<^verbatim>\<open>Math.random().toString(36).substr(2, 9)\<close> produces is the argument \<open>fresh\<close>.
  The write to the remote table that follows each update only logs its failure and
  leaves the state alone.
\<close>

definition handleAddSchedule :: "string \<Rightarrow> ScheduleItem \<Rightarrow> app_state \<Rightarrow> app_state" where
  "handleAddSchedule fresh newItem s =
     (let item = newItem\<lparr>entry_id := fresh, isActive := True\<rparr>;
          newSchedule = sort_key startTime (schedule s @ [item])
      in s\<lparr>schedule := newSchedule, showAddModal := False\<rparr>)"

definition handleEditSchedule :: "ScheduleItem \<Rightarrow> app_state \<Rightarrow> app_state" where
  "handleEditSchedule updatedItem s =
     (let newSchedule = sort_key startTime
            (map (\<lambda>item. if entry_id item = entry_id updatedItem then updatedItem else item)
               (schedule s))
      in s\<lparr>schedule := newSchedule, editingItem := None\<rparr>)"

definition handleDelete :: "string \<Rightarrow> app_state \<Rightarrow> app_state" where
  "handleDelete i s =
     (let newSchedule = filter (\<lambda>item. entry_id item \<noteq> i) (schedule s)
      in s\<lparr>schedule := newSchedule\<rparr>)"

definition toggleActive :: "string \<Rightarrow> app_state \<Rightarrow> app_state" where
  "toggleActive i s =
     (case find (\<lambda>item. entry_id item = i) (schedule s) of
        None \<Rightarrow> s
      | Some itemToToggle \<Rightarrow>
          (let updatedItem = itemToToggle\<lparr>isActive := \<not> isActive itemToToggle\<rparr>;
               newSchedule = map (\<lambda>item. if entry_id item = i then updatedItem else item)
                               (schedule s)
           in s\<lparr>schedule := newSchedule\<rparr>))"

definition updateSettings :: "AppSettings \<Rightarrow> app_state \<Rightarrow> app_state" where
  "updateSettings newSettings s = s\<lparr>settings := newSettings\<rparr>"

text \<open>
  The derived view \<^verbatim>\<open>nextBell\<close>: element \<^verbatim>\<open>[0]\<close> of the filtered and sorted
  array, \<^verbatim>\<open>undefined\<close> (here \<open>None\<close>) when the array is empty.
\<close>

definition nextBell :: "app_state \<Rightarrow> ScheduleItem option" where
  "nextBell s =
     (case sort_key startTime
             (filter (\<lambda>i. isActive i \<and> startTime i > format_HHmm (currentTime s)) (schedule s)) of
        [] \<Rightarrow> None
      | x # _ \<Rightarrow> Some x)"

section \<open>App: handlers interleaved\<close>

text \<open>
  While a sequence is suspended at an \<^verbatim>\<open>await\<close> the other handlers keep running.
  An event is one handler run to its next suspension: a clock tick, the test button of an
  entry, a suspended sequence reaching its \<^verbatim>\<open>finally\<close>, or a command of the user.

  After each event React renders again. The effect that installs the interval has the
  dependency list \<^verbatim>\<open>[schedule, settings.isAutoEnabled, lastTriggered]\<close>: it runs again,
  and the interval callback becomes a closure of the new render, only when one of the
  three has changed (a new array for \<^verbatim>\<open>schedule\<close>, a different value for the other
  two). \<open>app\<close> is the current state; \<open>timer\<close> is the render whose closure the interval
  runs.
\<close>

record machine =
  app :: app_state
  timer :: app_state

definition mount :: "app_state \<Rightarrow> machine" where
  "mount s = \<lparr>app = s, timer = s\<rparr>"

definition commit :: "bool \<Rightarrow> app_state \<Rightarrow> machine \<Rightarrow> machine" where
  "commit deps_changed s m = \<lparr>app = s, timer = (if deps_changed then s else timer m)\<rparr>"

datatype event =
    Tick clock_time
  | TestBell ScheduleItem
  | SequenceEnds
  | AddSchedule string ScheduleItem
  | EditSchedule ScheduleItem
  | Delete string
  | ToggleActive string
  | UpdateSettings AppSettings

datatype started = Auto ScheduleItem | Manual ScheduleItem

fun is_auto :: "started \<Rightarrow> bool" where
  "is_auto (Auto _) = True"
| "is_auto (Manual _) = False"

fun step :: "event \<Rightarrow> machine \<Rightarrow> machine \<times> started list" where
  "step (Tick now) m =
     (case tick now (timer m) (app m) of
        (s1, started) \<Rightarrow>
          (commit (lastTriggered s1 \<noteq> lastTriggered (app m)) s1 m,
           case started of Some item \<Rightarrow> [Auto item] | None \<Rightarrow> []))"
| "step (TestBell item) m =
     (case triggerBell_begin (app m) (app m) of
        (s1, started) \<Rightarrow> (commit False s1 m, if started then [Manual item] else []))"
| "step SequenceEnds m = (commit False (triggerBell_finally (app m)) m, [])"
| "step (AddSchedule fresh newItem) m =
     (commit True (handleAddSchedule fresh newItem (app m)) m, [])"
| "step (EditSchedule updatedItem) m = (commit True (handleEditSchedule updatedItem (app m)) m, [])"
| "step (Delete i) m = (commit True (handleDelete i (app m)) m, [])"
| "step (ToggleActive i) m =
     (commit (find (\<lambda>item. entry_id item = i) (schedule (app m)) \<noteq> None)
        (toggleActive i (app m)) m, [])"
| "step (UpdateSettings newSettings) m =
     (commit (isAutoEnabled newSettings \<noteq> isAutoEnabled (settings (app m)))
        (updateSettings newSettings (app m)) m, [])"

fun run :: "event list \<Rightarrow> machine \<Rightarrow> machine \<times> started list" where
  "run [] m = (m, [])"
| "run (ev # evs) m =
     (let (m1, a) = step ev m; (m2, b) = run evs m1 in (m2, a @ b))"

text \<open>Every tick of the list falls in the minute that \<^verbatim>\<open>format(now, 'HH:mm')\<close> writes as \<open>m\<close>.\<close>

fun in_minute :: "string \<Rightarrow> event \<Rightarrow> bool" where
  "in_minute m (Tick now) = (format_HHmm now = m)"
| "in_minute m _ = True"

text \<open>
  What the dependency list maintains: the interval callback reads the current schedule,
  the current auto-trigger switch and the current \<open>lastTriggered\<close>.
\<close>

definition deps_current :: "machine \<Rightarrow> bool" where
  "deps_current m \<longleftrightarrow>
     schedule (timer m) = schedule (app m)
     \<and> isAutoEnabled (settings (timer m)) = isAutoEnabled (settings (app m))
     \<and> lastTriggered (timer m) = lastTriggered (app m)"

section \<open>App: the initial fetch\<close>

text \<open>
  \<^verbatim>\<open>supabase\<close> is the client or \<^verbatim>\<open>null\<close>; a query answers with
  \<^verbatim>\<open>{ data, error }\<close> (the error given by its code) or throws. A slot of
  \<^verbatim>\<open>localStorage\<close> is empty (\<^verbatim>\<open>getItem\<close> returns \<^verbatim>\<open>null\<close> or the empty
  string), holds a snapshot, or holds text on which \<^verbatim>\<open>JSON.parse\<close> throws.
\<close>

datatype 'a answer = Answer "'a option" "string option" | QueryThrows

record supabase_client =
  select_schedules :: "ScheduleItem list answer"
  select_settings :: "AppSettings answer"

datatype 'a slot = NoEntry | Stored 'a | Unparsable

datatype error = SyntaxError

text \<open>The \<^verbatim>\<open>catch\<close> block of the remote branch.\<close>

definition fallback_to_localStorage ::
  "ScheduleItem list slot \<Rightarrow> AppSettings slot \<Rightarrow> app_state \<Rightarrow> error + app_state" where
  "fallback_to_localStorage savedSchedule savedSettings s =
     (case savedSchedule of
        Unparsable \<Rightarrow> Inl SyntaxError
      | _ \<Rightarrow>
        (let s1 = (case savedSchedule of Stored x \<Rightarrow> s\<lparr>schedule := x\<rparr> | _ \<Rightarrow> s)
         in case savedSettings of
              Unparsable \<Rightarrow> Inl SyntaxError
            | Stored y \<Rightarrow> Inr (s1\<lparr>settings := y\<rparr>)
            | NoEntry \<Rightarrow> Inr s1))"

text \<open>The \<^verbatim>\<open>else\<close> branch, taken when there is no client.\<close>

definition load_localStorage ::
  "ScheduleItem list slot \<Rightarrow> AppSettings slot \<Rightarrow> app_state \<Rightarrow> error + app_state" where
  "load_localStorage savedSchedule savedSettings s =
     (case savedSchedule of
        Unparsable \<Rightarrow> Inl SyntaxError
      | _ \<Rightarrow>
        (let s1 = s\<lparr>schedule := (case savedSchedule of Stored x \<Rightarrow> x | _ \<Rightarrow> DEFAULT_SCHEDULE)\<rparr>
         in case savedSettings of
              Unparsable \<Rightarrow> Inl SyntaxError
            | Stored y \<Rightarrow> Inr (s1\<lparr>settings := y\<rparr>)
            | NoEntry \<Rightarrow> Inr (s1\<lparr>settings := DEFAULT_SETTINGS\<rparr>)))"

text \<open>The \<^verbatim>\<open>try\<close> block of the remote branch; \<open>Inl\<close> carries the state at the throw.\<close>

definition fetch_remote :: "supabase_client \<Rightarrow> app_state \<Rightarrow> app_state + app_state" where
  "fetch_remote c s =
     (case select_schedules c of
        QueryThrows \<Rightarrow> Inl s
      | Answer scheduleData scheduleError \<Rightarrow>
          (if scheduleError \<noteq> None then Inl s
           else
             (let s1 = (case scheduleData of
                          Some rows \<Rightarrow>
                            (if length rows > 0 then s\<lparr>schedule := rows\<rparr>
                             else s\<lparr>schedule := DEFAULT_SCHEDULE\<rparr>)
                        | None \<Rightarrow> s\<lparr>schedule := DEFAULT_SCHEDULE\<rparr>)
              in case select_settings c of
                   QueryThrows \<Rightarrow> Inl s1
                 | Answer settingsData settingsError \<Rightarrow>
                     (if settingsError \<noteq> None \<and> settingsError \<noteq> Some ''PGRST116'' then Inl s1
                      else (case settingsData of
                              Some rest \<Rightarrow> Inr (s1\<lparr>settings := rest\<rparr>)
                            | None \<Rightarrow> Inr s1)))))"

definition fetchData ::
  "supabase_client option \<Rightarrow> ScheduleItem list slot \<Rightarrow> AppSettings slot \<Rightarrow> app_state
     \<Rightarrow> error + app_state" where
  "fetchData supabase savedSchedule savedSettings s =
     (let s0 = s\<lparr>isLoading := True\<rparr>;
          r = (case supabase of
                 Some c \<Rightarrow>
                   (case fetch_remote c s0 of
                      Inr s1 \<Rightarrow> Inr s1
                    | Inl s1 \<Rightarrow> fallback_to_localStorage savedSchedule savedSettings s1)
               | None \<Rightarrow> load_localStorage savedSchedule savedSettings s0)
      in case r of Inl err \<Rightarrow> Inl err | Inr s2 \<Rightarrow> Inr (s2\<lparr>isLoading := False\<rparr>))"

section \<open>Vocabulary of the properties\<close>

text \<open>The schedule a finished fetch has put into the state.\<close>

definition loaded_schedule :: "error + app_state \<Rightarrow> ScheduleItem list option" where
  "loaded_schedule r = (case r of Inl _ \<Rightarrow> None | Inr s \<Rightarrow> Some (schedule s))"

text \<open>The conditions under which the \<^verbatim>\<open>try\<close> block of the fetch throws.\<close>

definition schedules_read_fails :: "supabase_client \<Rightarrow> bool" where
  "schedules_read_fails c =
     (case select_schedules c of QueryThrows \<Rightarrow> True | Answer _ err \<Rightarrow> err \<noteq> None)"

definition settings_read_fails :: "supabase_client \<Rightarrow> bool" where
  "settings_read_fails c =
     (case select_settings c of
        QueryThrows \<Rightarrow> True
      | Answer _ err \<Rightarrow> err \<noteq> None \<and> err \<noteq> Some ''PGRST116'')"

definition schedules_no_rows :: "supabase_client \<Rightarrow> bool" where
  "schedules_no_rows c =
     (case select_schedules c of
        QueryThrows \<Rightarrow> False
      | Answer d _ \<Rightarrow> (case d of None \<Rightarrow> True | Some rows \<Rightarrow> rows = []))"

section \<open>Concrete inputs\<close>

definition period1 :: ScheduleItem where
  "period1 =
     \<lparr>entry_id = ''1'', period = 1, startTime = ''07:00'', endTime = ''07:45'',
      teacher = ''Budi Santoso'', gender = Bapak, subject = ''Matematika'',
      className = ''X-A'', isActive = True\<rparr>"

definition period2 :: ScheduleItem where
  "period2 =
     \<lparr>entry_id = ''2'', period = 2, startTime = ''07:45'', endTime = ''08:30'',
      teacher = ''Siti Aminah'', gender = Ibu, subject = ''Bahasa Indonesia'',
      className = ''XI-B'', isActive = True\<rparr>"

text \<open>The office in the morning: the default schedule is loaded, nothing has fired yet.\<close>

definition morning :: app_state where
  "morning =
     \<lparr>currentTime = \<lparr>hour = 6, minute = 59, second = 59\<rparr>, schedule = DEFAULT_SCHEDULE,
      settings = DEFAULT_SETTINGS, lastTriggered = None, isAnnouncing = False,
      showAddModal = False, editingItem = None, isLoading = False\<rparr>"

definition seven :: clock_time where
  "seven = \<lparr>hour = 7, minute = 0, second = 0\<rparr>"

definition quarter_to_eight :: clock_time where
  "quarter_to_eight = \<lparr>hour = 7, minute = 45, second = 0\<rparr>"

definition rest_of_seven :: "event list" where
  "rest_of_seven =
     [Tick \<lparr>hour = 7, minute = 0, second = 1\<rparr>, SequenceEnds,
      Tick \<lparr>hour = 7, minute = 0, second = 30\<rparr>, Tick \<lparr>hour = 7, minute = 0, second = 59\<rparr>]"

text \<open>Two active entries that start at 08:00, and the ticks of that minute.\<close>

definition twin_a :: ScheduleItem where
  "twin_a =
     \<lparr>entry_id = ''a'', period = 3, startTime = ''08:00'', endTime = ''08:45'',
      teacher = ''Siti Aminah'', gender = Ibu, subject = ''Bahasa Indonesia'',
      className = ''XI-B'', isActive = True\<rparr>"

definition twin_b :: ScheduleItem where
  "twin_b =
     \<lparr>entry_id = ''b'', period = 3, startTime = ''08:00'', endTime = ''08:45'',
      teacher = ''Joko Widodo'', gender = Bapak, subject = ''Fisika'',
      className = ''XII-C'', isActive = True\<rparr>"

definition eight :: clock_time where
  "eight = \<lparr>hour = 8, minute = 0, second = 0\<rparr>"

definition rest_of_eight :: "event list" where
  "rest_of_eight =
     [Tick \<lparr>hour = 8, minute = 0, second = 1\<rparr>, SequenceEnds,
      Tick \<lparr>hour = 8, minute = 0, second = 2\<rparr>, Tick \<lparr>hour = 8, minute = 0, second = 59\<rparr>]"

text \<open>
  Four worlds: everything works; the provider has no key; the audio element cannot load
  the data; there is neither a key nor speech synthesis.
\<close>

definition browser_ok :: env where
  "browser_ok =
     \<lparr>chime = ChimeEnded, api_key = Some ''key'',
      generateContent = (\<lambda>_ _. Resolved (Some ''UklGRg=='')),
      audio = (\<lambda>_. AudioPlays), speak_throws = False\<rparr>"

definition no_key :: env where
  "no_key =
     \<lparr>chime = ChimeEnded, api_key = None,
      generateContent = (\<lambda>_ _. Resolved (Some ''UklGRg=='')),
      audio = (\<lambda>_. AudioPlays), speak_throws = False\<rparr>"

definition bad_audio :: env where
  "bad_audio =
     \<lparr>chime = ChimeError, api_key = Some ''key'',
      generateContent = (\<lambda>_ _. Resolved (Some ''UklGRg=='')),
      audio = (\<lambda>_. AudioLoadError), speak_throws = False\<rparr>"

definition no_speech :: env where
  "no_speech =
     \<lparr>chime = ChimePlayRejected, api_key = None,
      generateContent = (\<lambda>_ _. Rejected),
      audio = (\<lambda>_. AudioPlays), speak_throws = True\<rparr>"

text \<open>A remote table with no rows, a remote table that cannot be read, a local snapshot.\<close>

definition empty_remote :: supabase_client where
  "empty_remote =
     \<lparr>select_schedules = Answer (Some []) None,
      select_settings = Answer None (Some ''PGRST116'')\<rparr>"

definition failing_remote :: supabase_client where
  "failing_remote =
     \<lparr>select_schedules = Answer None (Some ''42P01''),
      select_settings = Answer None None\<rparr>"

definition snapshot :: "ScheduleItem list" where
  "snapshot = [twin_a]"

section \<open>The minute guard\<close>

lemma tick_lastTriggered_same:
  "lastTriggered r = Some (format_HHmm now) \<Longrightarrow> tick now r s = (s\<lparr>currentTime := now\<rparr>, None)"
  by (simp add: tick_def Let_def)

lemma tick_deps:
  "schedule (fst (tick now r s)) = schedule s
   \<and> settings (fst (tick now r s)) = settings s
   \<and> (lastTriggered (fst (tick now r s)) = lastTriggered s
        \<or> lastTriggered (fst (tick now r s)) = Some (format_HHmm now))"
  by (simp add: tick_def Let_def triggerBell_begin_def split: option.splits)

lemma step_deps_current: "deps_current m \<Longrightarrow> deps_current (fst (step ev m))"
proof (cases ev)
  case (Tick now)
  assume "deps_current m"
  with tick_deps [of now "timer m" "app m"] show ?thesis
    by (auto simp: Tick deps_current_def commit_def case_prod_beta)
next
  case (ToggleActive i)
  assume "deps_current m"
  then show ?thesis
    by (auto simp: ToggleActive deps_current_def commit_def toggleActive_def)
qed (auto simp: deps_current_def commit_def triggerBell_begin_def triggerBell_finally_def
       updateSettings_def)

text \<open>
  \<open>deps_current\<close> holds when the component is mounted and after every event: it is an
  invariant of the running application.
\<close>

lemma deps_current_mount: "deps_current (mount s)"
  by (simp add: deps_current_def mount_def)

lemma run_deps_current: "deps_current m \<Longrightarrow> deps_current (fst (run evs m))"
proof (induction evs arbitrary: m)
  case Nil
  then show ?case by simp
next
  case (Cons ev evs)
  from Cons.IH [OF step_deps_current [OF Cons.prems, of ev]] show ?case
    by (simp add: case_prod_beta Let_def)
qed

lemma step_keeps_lastTriggered:
  assumes "deps_current m" and "lastTriggered (app m) = Some mi" and "in_minute mi ev"
  shows "lastTriggered (app (fst (step ev m))) = Some mi \<and> filter is_auto (snd (step ev m)) = []"
proof (cases ev)
  case (Tick now)
  with assms have "lastTriggered (timer m) = Some (format_HHmm now)"
    by (simp add: deps_current_def)
  from tick_lastTriggered_same [OF this] assms(2) show ?thesis
    by (simp add: Tick commit_def)
next
  case (ToggleActive i)
  from assms(2) show ?thesis
    by (simp add: ToggleActive commit_def toggleActive_def split: option.splits)
qed (use assms(2) in \<open>auto simp: commit_def triggerBell_begin_def triggerBell_finally_def
        handleAddSchedule_def handleEditSchedule_def handleDelete_def updateSettings_def Let_def\<close>)

lemma run_keeps_lastTriggered:
  "deps_current m \<Longrightarrow> lastTriggered (app m) = Some mi \<Longrightarrow> list_all (in_minute mi) evs \<Longrightarrow>
     lastTriggered (app (fst (run evs m))) = Some mi \<and> filter is_auto (snd (run evs m)) = []"
proof (induction evs arbitrary: m)
  case Nil
  then show ?case by simp
next
  case (Cons ev evs)
  from Cons.prems have ev: "in_minute mi ev" and evs: "list_all (in_minute mi) evs" by simp_all
  from step_keeps_lastTriggered [OF Cons.prems(1,2) ev]
  have st: "lastTriggered (app (fst (step ev m))) = Some mi"
    and no: "filter is_auto (snd (step ev m)) = []" by simp_all
  from Cons.IH [OF step_deps_current [OF Cons.prems(1)] st evs] no show ?case
    by (simp add: case_prod_beta Let_def)
qed

lemma step_auto_started:
  "filter is_auto (snd (step ev m)) \<noteq> [] \<Longrightarrow> in_minute mi ev \<Longrightarrow>
     lastTriggered (app (fst (step ev m))) = Some mi
     \<and> length (filter is_auto (snd (step ev m))) = 1"
  by (cases ev)
     (auto simp: tick_def triggerBell_begin_def commit_def Let_def
        split: option.splits if_splits prod.splits)

text \<open>
  Claim C1. Take any run of the handlers, commands of the user included, in which every
  clock tick falls in the same minute \<open>mi\<close>. The trigger engine starts at most one
  announcement in it; and from a state whose \<open>lastTriggered\<close> is already \<open>mi\<close> it
  starts none, however many ticks follow.
\<close>

theorem at_most_one_trigger_per_minute:
  "deps_current m \<Longrightarrow> list_all (in_minute mi) evs \<Longrightarrow>
     length (filter is_auto (snd (run evs m))) \<le> 1 \<and>
     (lastTriggered (app m) = Some mi \<longrightarrow> filter is_auto (snd (run evs m)) = [])"
proof (induction evs arbitrary: m)
  case Nil
  then show ?case by simp
next
  case (Cons ev evs)
  then have ev: "in_minute mi ev" and evs: "list_all (in_minute mi) evs" by simp_all
  note dc = step_deps_current [OF Cons.prems(1), of ev]
  have snd_run: "snd (run (ev # evs) m) = snd (step ev m) @ snd (run evs (fst (step ev m)))"
    by (simp add: case_prod_beta Let_def)
  have first: "length (filter is_auto (snd (run (ev # evs) m))) \<le> 1"
  proof (cases "filter is_auto (snd (step ev m)) = []")
    case True
    with Cons.IH [OF dc evs] snd_run show ?thesis by simp
  next
    case False
    from step_auto_started [OF False ev]
    have lt: "lastTriggered (app (fst (step ev m))) = Some mi"
      and one: "length (filter is_auto (snd (step ev m))) = 1" by simp_all
    from run_keeps_lastTriggered [OF dc lt evs] one snd_run show ?thesis by simp
  qed
  have second: "lastTriggered (app m) = Some mi \<longrightarrow> filter is_auto (snd (run (ev # evs) m)) = []"
    using run_keeps_lastTriggered [of m mi "ev # evs"] Cons.prems by simp
  from first second show ?case by simp
qed

theorem at_most_one_trigger_per_minute_witness:
  "deps_current (mount morning)
   \<and> list_all (in_minute ''07:00'') (Tick seven # rest_of_seven)
   \<and> length (filter is_auto (snd (run (Tick seven # rest_of_seven) (mount morning)))) \<le> 1
   \<and> snd (run (Tick seven # rest_of_seven) (mount morning)) = [Auto period1]
   \<and> deps_current (fst (step (Tick seven) (mount morning)))
   \<and> lastTriggered (app (fst (step (Tick seven) (mount morning)))) = Some ''07:00''
   \<and> filter is_auto
        (snd (run (Tick seven # rest_of_seven) (fst (step (Tick seven) (mount morning))))) = []"
proof -
  have d: "deps_current (mount morning)"
    by (simp add: deps_current_def mount_def)
  have d1: "deps_current (fst (step (Tick seven) (mount morning)))"
    by code_simp
  have h: "list_all (in_minute ''07:00'') (Tick seven # rest_of_seven)"
    by code_simp
  have l: "lastTriggered (app (fst (step (Tick seven) (mount morning)))) = Some ''07:00''"
    by code_simp
  have v: "snd (run (Tick seven # rest_of_seven) (mount morning)) = [Auto period1]"
    by code_simp
  from at_most_one_trigger_per_minute [OF d h]
    at_most_one_trigger_per_minute [OF d1 h] d d1 h l v
  show ?thesis by simp
qed

section \<open>The guard of the announcement sequence\<close>

text \<open>
  A \<^verbatim>\<open>triggerBell\<close> whose render has the flag set returns at the guard, and the test
  button, whose \<^verbatim>\<open>triggerBell\<close> is the one of the current render, starts nothing
  while a sequence is in flight.
\<close>

lemma triggerBell_guard:
  "isAnnouncing r \<Longrightarrow> triggerBell e item r s = (s, [], True)"
  by (simp add: triggerBell_def triggerBell_begin_def)

lemma test_button_guard:
  "isAnnouncing (app m) \<Longrightarrow> step (TestBell item) m = (m, [])"
  by (simp add: triggerBell_begin_def commit_def)

text \<open>
  Claim C2: while \<open>isAnnouncing\<close> is true, no call of \<^verbatim>\<open>triggerBell\<close> starts a
  sequence. This fails for the automatic trigger. The interval callback keeps the
  \<^verbatim>\<open>triggerBell\<close> of the render in which the effect last ran, and \<open>isAnnouncing\<close> is
  not in the dependency list. In the morning office the test button of the second
  period is pressed; \<open>isAnnouncing\<close> is now true, but the flag the interval reads is still false.
  The tick of 07:00 passes the guard and starts the sequence of the first period while the
  test sequence is in flight.
\<close>

theorem overlapping_announcement:
  "period2 \<in> set (schedule (app (mount morning)))
   \<and> \<not> isAnnouncing (app (mount morning))
   \<and> isAnnouncing (app (fst (run [TestBell period2] (mount morning))))
   \<and> \<not> isAnnouncing (timer (fst (run [TestBell period2] (mount morning))))
   \<and> snd (run [TestBell period2, Tick seven] (mount morning)) = [Manual period2, Auto period1]"
  by code_simp

section \<open>The entry a tick selects\<close>

lemma find_Some_split:
  "find P xs = Some x \<Longrightarrow> \<exists>pre post. xs = pre @ x # post \<and> P x \<and> (\<forall>y\<in>set pre. \<not> P y)"
proof (induction xs)
  case Nil
  then show ?case by simp
next
  case (Cons a xs)
  show ?case
  proof (cases "P a")
    case True
    with Cons.prems have "a # xs = [] @ x # xs \<and> P x \<and> (\<forall>y\<in>set []. \<not> P y)" by simp
    then show ?thesis by blast
  next
    case False
    with Cons obtain pre post where "xs = pre @ x # post" "P x" "\<forall>y\<in>set pre. \<not> P y" by auto
    with False have "a # xs = (a # pre) @ x # post \<and> P x \<and> (\<forall>y\<in>set (a # pre). \<not> P y)" by simp
    then show ?thesis by blast
  qed
qed

text \<open>
  What holds of the selection. On a tick with auto-trigger enabled, in a minute that
  \<open>lastTriggered\<close> does not name, the entry handed to \<^verbatim>\<open>triggerBell\<close> is the one
  \<^verbatim>\<open>find\<close> returns: it is active, it starts at the minute of the tick, and no entry
  before it in the schedule does both. Its sequence starts only if the flag that the
  interval's \<^verbatim>\<open>triggerBell\<close> reads is false. \<open>lastTriggered\<close> becomes the minute of
  the tick, and nothing that follows in that minute starts another sequence, so a second
  active entry with the same start time is never triggered in that minute.
\<close>

lemma tick_selects_first_match:
  assumes "deps_current m" and "isAutoEnabled (settings (app m))"
    and "lastTriggered (app m) \<noteq> Some (format_HHmm now)"
  shows "snd (step (Tick now) m) =
           (if isAnnouncing (timer m) then []
            else case find (\<lambda>item. isActive item \<and> startTime item = format_HHmm now)
                        (schedule (app m)) of
                   None \<Rightarrow> [] | Some item \<Rightarrow> [Auto item])
       \<and> (\<forall>item. find (\<lambda>item. isActive item \<and> startTime item = format_HHmm now)
                   (schedule (app m)) = Some item
            \<longrightarrow> (\<exists>pre post. schedule (app m) = pre @ item # post
                    \<and> isActive item \<and> startTime item = format_HHmm now
                    \<and> (\<forall>x\<in>set pre. \<not> (isActive x \<and> startTime x = format_HHmm now)))
                \<and> lastTriggered (app (fst (step (Tick now) m))) = Some (format_HHmm now)
                \<and> (list_all (in_minute (format_HHmm now)) evs
                     \<longrightarrow> filter is_auto (snd (run evs (fst (step (Tick now) m)))) = []))"
proof -
  let ?P = "\<lambda>item. isActive item \<and> startTime item = format_HHmm now"
  from assms have r: "schedule (timer m) = schedule (app m)" "isAutoEnabled (settings (timer m))"
    "lastTriggered (timer m) \<noteq> Some (format_HHmm now)"
    by (simp_all add: deps_current_def)
  have a: "snd (step (Tick now) m) =
           (if isAnnouncing (timer m) then []
            else case find ?P (schedule (app m)) of None \<Rightarrow> [] | Some item \<Rightarrow> [Auto item])"
    using r by (simp add: tick_def Let_def triggerBell_begin_def split: option.splits)
  have b: "lastTriggered (app (fst (step (Tick now) m))) = Some (format_HHmm now)"
    if "find ?P (schedule (app m)) = Some item" for item
    using that r by (simp add: tick_def Let_def triggerBell_begin_def commit_def)
  have c: "\<exists>pre post. schedule (app m) = pre @ item # post \<and> ?P item \<and> (\<forall>x\<in>set pre. \<not> ?P x)"
    if "find ?P (schedule (app m)) = Some item" for item
    using find_Some_split [OF that] .
  have d: "filter is_auto (snd (run evs (fst (step (Tick now) m)))) = []"
    if "find ?P (schedule (app m)) = Some item" "list_all (in_minute (format_HHmm now)) evs" for item
    using run_keeps_lastTriggered [OF step_deps_current [OF assms(1)] b [OF that(1)] that(2)]
    by simp
  from a b c d show ?thesis by blast
qed

lemma tick_selects_first_match_example:
  "deps_current (mount (morning\<lparr>schedule := [period1, twin_a, twin_b]\<rparr>))
   \<and> isAutoEnabled (settings (app (mount (morning\<lparr>schedule := [period1, twin_a, twin_b]\<rparr>))))
   \<and> lastTriggered (app (mount (morning\<lparr>schedule := [period1, twin_a, twin_b]\<rparr>)))
        \<noteq> Some (format_HHmm eight)
   \<and> find (\<lambda>item. isActive item \<and> startTime item = format_HHmm eight)
        (schedule (app (mount (morning\<lparr>schedule := [period1, twin_a, twin_b]\<rparr>)))) = Some twin_a
   \<and> list_all (in_minute (format_HHmm eight)) rest_of_eight
   \<and> snd (step (Tick eight) (mount (morning\<lparr>schedule := [period1, twin_a, twin_b]\<rparr>)))
        = [Auto twin_a]
   \<and> lastTriggered (app (fst (step (Tick eight)
        (mount (morning\<lparr>schedule := [period1, twin_a, twin_b]\<rparr>))))) = Some (format_HHmm eight)
   \<and> filter is_auto (snd (run rest_of_eight (fst (step (Tick eight)
        (mount (morning\<lparr>schedule := [period1, twin_a, twin_b]\<rparr>)))))) = []"
proof -
  let ?m = "mount (morning\<lparr>schedule := [period1, twin_a, twin_b]\<rparr>)"
  have h0: "deps_current ?m"
    by (simp add: deps_current_def mount_def)
  have h1: "isAutoEnabled (settings (app ?m))"
    by (simp add: mount_def morning_def DEFAULT_SETTINGS_def)
  have h2: "lastTriggered (app ?m) \<noteq> Some (format_HHmm eight)"
    by (simp add: mount_def morning_def)
  have h3: "find (\<lambda>item. isActive item \<and> startTime item = format_HHmm eight) (schedule (app ?m))
              = Some twin_a"
    by code_simp
  have h4: "list_all (in_minute (format_HHmm eight)) rest_of_eight"
    by code_simp
  have h5: "\<not> isAnnouncing (timer ?m)"
    by (simp add: mount_def morning_def)
  from tick_selects_first_match [OF h0 h1 h2, where evs = rest_of_eight] h0 h1 h2 h3 h4 h5
  show ?thesis by simp
qed

text \<open>
  Claim C3: on a tick with auto-trigger enabled, in a minute not yet triggered, the first
  active entry that starts at that minute is triggered. This fails, again by the flag
  that the interval reads from an old render. The tick of 07:00 starts the first period and changes \<open>lastTriggered\<close>, so
  the effect runs again in a render whose \<open>isAnnouncing\<close> is true; the end of the
  sequence clears the flag but is no dependency, and the interval keeps that render. At
  07:45 nothing is in flight, auto-trigger is on, \<open>lastTriggered\<close> names 07:00 and the
  second period is active and starts at 07:45: the tick selects it, its
  \<^verbatim>\<open>triggerBell\<close> returns at the guard, the minute is marked, and no sequence starts.
\<close>

theorem matching_entry_not_triggered:
  "\<not> isAnnouncing (app (fst (run [Tick seven, SequenceEnds] (mount morning))))
   \<and> isAutoEnabled (settings (app (fst (run [Tick seven, SequenceEnds] (mount morning)))))
   \<and> lastTriggered (app (fst (run [Tick seven, SequenceEnds] (mount morning)))) = Some ''07:00''
   \<and> format_HHmm quarter_to_eight = ''07:45''
   \<and> period2 \<in> set (schedule (app (fst (run [Tick seven, SequenceEnds] (mount morning)))))
   \<and> isActive period2 \<and> startTime period2 = ''07:45''
   \<and> isAnnouncing (timer (fst (run [Tick seven, SequenceEnds] (mount morning))))
   \<and> snd (step (Tick quarter_to_eight) (fst (run [Tick seven, SequenceEnds] (mount morning)))) = []
   \<and> lastTriggered (app (fst (step (Tick quarter_to_eight)
         (fst (run [Tick seven, SequenceEnds] (mount morning)))))) = Some ''07:45''
   \<and> snd (run [Tick seven, SequenceEnds, Tick quarter_to_eight] (mount morning)) = [Auto period1]"
  by code_simp

section \<open>The flag around the sequence\<close>

lemma try_block_not_pending:
  assumes "chime e \<noteq> ChimeNeverSettles" and "\<forall>t v. generateContent e t v \<noteq> Pending"
    and "\<forall>src. audio e src \<noteq> AudioNeverSettles"
  shows "snd (try_block e st item) \<noteq> Pending"
proof -
  have g: "snd (generateAnnouncementAudio e t v) \<noteq> Pending" for t v
    using assms(2) by (auto simp: generateAnnouncementAudio_def split: promise.splits)
  have p: "snd (playAudioFromBase64 e d) \<noteq> Pending" for d
    using assms(3) by (auto simp: playAudioFromBase64_def Let_def split: audio_outcome.splits)
  show ?thesis
    using assms(1) g [of "announcement_text item" "voiceName st"]
      p [of "the (case snd (generateAnnouncementAudio e (announcement_text item) (voiceName st)) of Resolved a \<Rightarrow> a)"]
    by (auto simp: try_block_def Let_def browser_tts_def case_prod_beta
        split: chime_outcome.splits promise.splits prod.splits)
qed

text \<open>
  Claim C4. A call of \<^verbatim>\<open>triggerBell\<close> that passes the guard has set \<open>isAnnouncing\<close>
  before its first \<^verbatim>\<open>await\<close>. Whatever the outside world answers, the call returns
  exactly when the body is not stuck at an \<^verbatim>\<open>await\<close>, and the flag it leaves is
  false when it has returned (the body ran to its end, fell back to the browser voice,
  or threw) and true when it has not. When every awaited promise settles, the call
  returns.
\<close>

theorem isAnnouncing_bracket:
  assumes "\<not> isAnnouncing r"
  shows "triggerBell_begin r s = (s\<lparr>isAnnouncing := True\<rparr>, True)
       \<and> (case triggerBell e item r s of
            (s', fx, returned) \<Rightarrow>
               fx = fst (try_catch e (settings r) item)
             \<and> returned = (snd (try_block e (settings r) item) \<noteq> Pending)
             \<and> s' = s\<lparr>isAnnouncing := \<not> returned\<rparr>)
       \<and> (chime e \<noteq> ChimeNeverSettles \<and> (\<forall>t v. generateContent e t v \<noteq> Pending)
            \<and> (\<forall>src. audio e src \<noteq> AudioNeverSettles)
          \<longrightarrow> snd (snd (triggerBell e item r s)) \<and> \<not> isAnnouncing (fst (triggerBell e item r s)))"
proof -
  have a: "triggerBell_begin r s = (s\<lparr>isAnnouncing := True\<rparr>, True)"
    using assms by (simp add: triggerBell_begin_def)
  have b: "(case triggerBell e item r s of
            (s', fx, returned) \<Rightarrow>
               fx = fst (try_catch e (settings r) item)
             \<and> returned = (snd (try_block e (settings r) item) \<noteq> Pending)
             \<and> s' = s\<lparr>isAnnouncing := \<not> returned\<rparr>)"
    by (cases "try_block e (settings r) item"; cases "snd (try_block e (settings r) item)")
       (simp_all add: triggerBell_def a try_catch_def triggerBell_finally_def)
  have c: "snd (snd (triggerBell e item r s)) \<and> \<not> isAnnouncing (fst (triggerBell e item r s))"
    if "chime e \<noteq> ChimeNeverSettles" "\<forall>t v. generateContent e t v \<noteq> Pending"
       "\<forall>src. audio e src \<noteq> AudioNeverSettles"
    using b try_block_not_pending [OF that, of "settings r" item]
    by (auto simp: case_prod_beta)
  from a b c show ?thesis by blast
qed

theorem isAnnouncing_bracket_witness:
  "\<not> isAnnouncing morning
   \<and> chime browser_ok \<noteq> ChimeNeverSettles \<and> (\<forall>t v. generateContent browser_ok t v \<noteq> Pending)
   \<and> (\<forall>src. audio browser_ok src \<noteq> AudioNeverSettles)
   \<and> chime no_speech \<noteq> ChimeNeverSettles \<and> (\<forall>t v. generateContent no_speech t v \<noteq> Pending)
   \<and> (\<forall>src. audio no_speech src \<noteq> AudioNeverSettles)
   \<and> triggerBell_begin morning morning = (morning\<lparr>isAnnouncing := True\<rparr>, True)
   \<and> snd (snd (triggerBell browser_ok period1 morning morning))
   \<and> \<not> isAnnouncing (fst (triggerBell browser_ok period1 morning morning))
   \<and> snd (snd (triggerBell no_speech period1 morning morning))
   \<and> \<not> isAnnouncing (fst (triggerBell no_speech period1 morning morning))"
proof -
  have h: "\<not> isAnnouncing morning" by (simp add: morning_def)
  have e1: "chime browser_ok \<noteq> ChimeNeverSettles \<and> (\<forall>t v. generateContent browser_ok t v \<noteq> Pending)
     \<and> (\<forall>src. audio browser_ok src \<noteq> AudioNeverSettles)"
    by (simp add: browser_ok_def)
  have e2: "chime no_speech \<noteq> ChimeNeverSettles \<and> (\<forall>t v. generateContent no_speech t v \<noteq> Pending)
     \<and> (\<forall>src. audio no_speech src \<noteq> AudioNeverSettles)"
    by (simp add: no_speech_def)
  from isAnnouncing_bracket [OF h, where e = browser_ok and item = period1 and s = morning]
    isAnnouncing_bracket [OF h, where e = no_speech and item = period1 and s = morning] h e1 e2
  show ?thesis by simp
qed

section \<open>The text of the announcement\<close>

lemma starts_with_append: "starts_with (ys @ zs) ys"
  by (induction ys) simp_all

lemma str_includes_starts: "starts_with w n \<Longrightarrow> str_includes w n"
  by (cases w; cases n) simp_all

lemma str_includes_mid: "str_includes (xs @ ys @ zs) ys"
  by (induction xs) (simp_all add: str_includes_starts starts_with_append)

lemma announcement_text_isActive:
  "announcement_text (item\<lparr>isActive := b\<rparr>) = announcement_text item"
  by (simp add: announcement_text_def)

lemma try_block_isActive: "try_block e st (item\<lparr>isActive := b\<rparr>) = try_block e st item"
  unfolding try_block_def announcement_text_isActive ..

lemma voiceName_schoolName: "voiceName (st\<lparr>schoolName := n\<rparr>) = voiceName st"
  by simp

lemma try_block_schoolName: "try_block e (st\<lparr>schoolName := n\<rparr>) item = try_block e st item"
  unfolding try_block_def voiceName_schoolName ..

text \<open>
  Claim C5, as amended. The text is the fixed template: the greeting, which names the
  school by the literal \<^verbatim>\<open>SMP ISLAM ARRAUDHOH\<close>, then the attention sentence with
  the period, the start time, the form of address, the teacher, the subject and the class
  of the entry, each of which occurs in the text. The text is a function of the entry
  alone: changing \<open>schoolName\<close> in the settings changes nothing in the sequence.
\<close>

theorem announcement_template:
  "announcement_text item =
      ''Assalamualaikum warahmatullohi wabarokatuh, kepada siswa SMP ISLAM ARRAUDHOH. ''
        @ '' Perhatian. Jam ke '' @ string_of_int (period item)
        @ ''. Pukul '' @ startTime item
        @ ''. '' @ string_of_gender (gender item) @ '' Guru '' @ teacher item
        @ '', pengampu mata pelajaran '' @ subject item
        @ '', dipersilakan masuk kelas '' @ className item
        @ ''. Selamat belajar.''
   \<and> str_includes (announcement_text item) ''SMP ISLAM ARRAUDHOH''
   \<and> str_includes (announcement_text item) (string_of_int (period item))
   \<and> str_includes (announcement_text item) (startTime item)
   \<and> str_includes (announcement_text item) (string_of_gender (gender item))
   \<and> str_includes (announcement_text item) (teacher item)
   \<and> str_includes (announcement_text item) (subject item)
   \<and> str_includes (announcement_text item) (className item)
   \<and> try_catch e (st\<lparr>schoolName := n\<rparr>) item = try_catch e st item"
proof -
  have a: "announcement_text item =
      ''Assalamualaikum warahmatullohi wabarokatuh, kepada siswa SMP ISLAM ARRAUDHOH. ''
        @ '' Perhatian. Jam ke '' @ string_of_int (period item)
        @ ''. Pukul '' @ startTime item
        @ ''. '' @ string_of_gender (gender item) @ '' Guru '' @ teacher item
        @ '', pengampu mata pelajaran '' @ subject item
        @ '', dipersilakan masuk kelas '' @ className item
        @ ''. Selamat belajar.''"
    by (simp add: announcement_text_def greeting_def)
  have mid: "str_includes t ys" if "t = xs @ ys @ zs" for t xs ys zs :: string
    using that str_includes_mid by simp
  have b: "str_includes (announcement_text item) ''SMP ISLAM ARRAUDHOH''"
    by (rule mid [where xs = "''Assalamualaikum warahmatullohi wabarokatuh, kepada siswa ''"])
       (simp add: a)
  have c: "str_includes (announcement_text item) (string_of_int (period item))"
    by (rule mid [where xs = "greeting @ '' Perhatian. Jam ke ''"])
       (simp add: announcement_text_def)
  have d: "str_includes (announcement_text item) (startTime item)"
    by (rule mid [where xs = "greeting @ '' Perhatian. Jam ke '' @ string_of_int (period item)
         @ ''. Pukul ''"])
       (simp add: announcement_text_def)
  have e: "str_includes (announcement_text item) (string_of_gender (gender item))"
    by (rule mid [where xs = "greeting @ '' Perhatian. Jam ke '' @ string_of_int (period item)
         @ ''. Pukul '' @ startTime item @ ''. ''"])
       (simp add: announcement_text_def)
  have f: "str_includes (announcement_text item) (teacher item)"
    by (rule mid [where xs = "greeting @ '' Perhatian. Jam ke '' @ string_of_int (period item)
         @ ''. Pukul '' @ startTime item @ ''. '' @ string_of_gender (gender item) @ '' Guru ''"])
       (simp add: announcement_text_def)
  have g: "str_includes (announcement_text item) (subject item)"
    by (rule mid [where xs = "greeting @ '' Perhatian. Jam ke '' @ string_of_int (period item)
         @ ''. Pukul '' @ startTime item @ ''. '' @ string_of_gender (gender item) @ '' Guru ''
         @ teacher item @ '', pengampu mata pelajaran ''"])
       (simp add: announcement_text_def)
  have h: "str_includes (announcement_text item) (className item)"
    by (rule mid [where xs = "greeting @ '' Perhatian. Jam ke '' @ string_of_int (period item)
         @ ''. Pukul '' @ startTime item @ ''. '' @ string_of_gender (gender item) @ '' Guru ''
         @ teacher item @ '', pengampu mata pelajaran '' @ subject item
         @ '', dipersilakan masuk kelas ''"])
       (simp add: announcement_text_def)
  have i: "try_catch e (st\<lparr>schoolName := n\<rparr>) item = try_catch e st item"
    unfolding try_catch_def try_block_schoolName ..
  from a b c d e f g h i show ?thesis by blast
qed

text \<open>
  As stated, with the school name taken from the settings, the claim fails: after the
  school has been renamed in the settings the text sent to the provider still names
  \<^verbatim>\<open>SMP ISLAM ARRAUDHOH\<close> and does not contain the new name.
\<close>

theorem greeting_ignores_schoolName_counterexample:
  "schoolName (settings (updateSettings
       \<lparr>schoolName = ''SMA NEGERI 1 BOGOR'', isAutoEnabled = True, voiceName = Kore\<rparr> morning))
     = ''SMA NEGERI 1 BOGOR''
   \<and> fst (try_catch browser_ok (settings (updateSettings
       \<lparr>schoolName = ''SMA NEGERI 1 BOGOR'', isAutoEnabled = True, voiceName = Kore\<rparr> morning))
       period1)
     = [ChimePlay CHIME_URL,
        SynthRequest
          ''Assalamualaikum warahmatullohi wabarokatuh, kepada siswa SMP ISLAM ARRAUDHOH.  Perhatian. Jam ke 1. Pukul 07:00. Bapak Guru Budi Santoso, pengampu mata pelajaran Matematika, dipersilakan masuk kelas X-A. Selamat belajar.''
          Kore,
        AudioLoad ''data:audio/mpeg;base64,UklGRg=='',
        AudioPlay ''data:audio/mpeg;base64,UklGRg=='']
   \<and> \<not> str_includes
         ''Assalamualaikum warahmatullohi wabarokatuh, kepada siswa SMP ISLAM ARRAUDHOH.  Perhatian. Jam ke 1. Pukul 07:00. Bapak Guru Budi Santoso, pengampu mata pelajaran Matematika, dipersilakan masuk kelas X-A. Selamat belajar.''
         ''SMA NEGERI 1 BOGOR''"
  by code_simp

section \<open>The fallback to the browser voice\<close>

lemma generateAnnouncementAudio_no_Speak:
  "Speak t l \<notin> set (fst (generateAnnouncementAudio e text v))"
  by (simp add: generateAnnouncementAudio_def split: promise.splits)

lemma playAudioFromBase64_no_Speak:
  "Speak t l \<notin> set (fst (playAudioFromBase64 e d))"
  by (simp add: playAudioFromBase64_def Let_def split: audio_outcome.splits)

lemma try_block_settled_chime:
  assumes "chime e \<noteq> ChimeThrows" and "chime e \<noteq> ChimeNeverSettles"
  shows "try_block e st item =
    (let text = announcement_text item;
              (fx1, r1) = generateAnnouncementAudio e text (voiceName st)
          in case r1 of
               Pending \<Rightarrow> (ChimePlay CHIME_URL # fx1, Pending)
             | Rejected \<Rightarrow> (ChimePlay CHIME_URL # fx1, Rejected)
             | Resolved audioData \<Rightarrow>
                 (if truthy audioData then
                    (let (fx2, r2) = playAudioFromBase64 e (the audioData)
                     in case r2 of
                          Resolved _ \<Rightarrow> (ChimePlay CHIME_URL # fx1 @ fx2, Resolved ())
                        | Pending \<Rightarrow> (ChimePlay CHIME_URL # fx1 @ fx2, Pending)
                        | Rejected \<Rightarrow>
                            (let (fx3, r3) = browser_tts e
                               ''Gemini audio playback failed, falling back to browser TTS:'' text
                             in (ChimePlay CHIME_URL # fx1 @ fx2 @ fx3, r3)))
                  else
                    (let (fx3, r3) = browser_tts e
                       ''No audio data from Gemini, falling back to browser TTS'' text
                     in (ChimePlay CHIME_URL # fx1 @ fx3, r3))))"
  using assms by (cases "chime e") (simp_all add: try_block_def)

text \<open>
  Claim C6. Let the chime settle and the synthesis call answer with \<open>a\<close>. The browser
  voice is invoked exactly when \<open>a\<close> is no usable audio or the playback of \<open>a\<close> is
  rejected; whenever it is invoked, it is with the composed text of the entry and the
  language \<^verbatim>\<open>id-ID\<close>. No failure of synthesis or playback makes the body throw (only
  the browser voice itself can), and the sequence reaches its end unless the playback
  never settles.
\<close>

theorem fallback_speech:
  assumes "chime e \<noteq> ChimeThrows" and "chime e \<noteq> ChimeNeverSettles"
    and "snd (generateAnnouncementAudio e (announcement_text item) (voiceName st)) = Resolved a"
  shows "(Speak (announcement_text item) ''id-ID'' \<in> set (fst (try_catch e st item))
            \<longleftrightarrow> \<not> truthy a \<or> snd (playAudioFromBase64 e (the a)) = Rejected)
       \<and> (\<forall>t l. Speak t l \<in> set (fst (try_catch e st item))
             \<longrightarrow> t = announcement_text item \<and> l = ''id-ID'')
       \<and> (snd (try_block e st item) = Rejected \<longrightarrow> speak_throws e)
       \<and> (snd (try_catch e st item)
            \<longleftrightarrow> \<not> (truthy a \<and> snd (playAudioFromBase64 e (the a)) = Pending))"
proof -
  obtain fx1 where g: "generateAnnouncementAudio e (announcement_text item) (voiceName st) = (fx1, Resolved a)"
    using assms(3) by (cases "generateAnnouncementAudio e (announcement_text item) (voiceName st)") simp
  have n1: "Speak t l \<notin> set fx1" for t l
    using generateAnnouncementAudio_no_Speak [of t l e "announcement_text item" "voiceName st"] g by simp
  obtain fx2 r2 where p: "playAudioFromBase64 e (the a) = (fx2, r2)"
    by (cases "playAudioFromBase64 e (the a)") simp
  have n2: "Speak t l \<notin> set fx2" for t l
    using playAudioFromBase64_no_Speak [of t l e "the a"] p by simp
  show ?thesis
    by (cases r2)
       (auto simp: try_catch_def try_block_settled_chime [OF assms(1,2)] Let_def g p n1 n2
          browser_tts_def)
qed

theorem fallback_speech_witness:
  "chime no_key \<noteq> ChimeThrows \<and> chime no_key \<noteq> ChimeNeverSettles
   \<and> snd (generateAnnouncementAudio no_key (announcement_text period1) (voiceName DEFAULT_SETTINGS))
        = Resolved None
   \<and> Speak (announcement_text period1) ''id-ID'' \<in> set (fst (try_catch no_key DEFAULT_SETTINGS period1))
   \<and> snd (try_catch no_key DEFAULT_SETTINGS period1)
   \<and> chime bad_audio \<noteq> ChimeThrows \<and> chime bad_audio \<noteq> ChimeNeverSettles
   \<and> snd (generateAnnouncementAudio bad_audio (announcement_text period1) (voiceName DEFAULT_SETTINGS))
        = Resolved (Some ''UklGRg=='')
   \<and> snd (playAudioFromBase64 bad_audio ''UklGRg=='') = Rejected
   \<and> Speak (announcement_text period1) ''id-ID'' \<in> set (fst (try_catch bad_audio DEFAULT_SETTINGS period1))
   \<and> snd (try_catch bad_audio DEFAULT_SETTINGS period1)
   \<and> chime browser_ok \<noteq> ChimeThrows \<and> chime browser_ok \<noteq> ChimeNeverSettles
   \<and> snd (generateAnnouncementAudio browser_ok (announcement_text period1) (voiceName DEFAULT_SETTINGS))
        = Resolved (Some ''UklGRg=='')
   \<and> snd (playAudioFromBase64 browser_ok ''UklGRg=='') = Resolved ()
   \<and> Speak (announcement_text period1) ''id-ID'' \<notin> set (fst (try_catch browser_ok DEFAULT_SETTINGS period1))
   \<and> snd (try_catch browser_ok DEFAULT_SETTINGS period1)
   \<and> chime no_speech \<noteq> ChimeThrows \<and> chime no_speech \<noteq> ChimeNeverSettles
   \<and> snd (generateAnnouncementAudio no_speech (announcement_text period1) (voiceName DEFAULT_SETTINGS))
        = Resolved None
   \<and> snd (try_block no_speech DEFAULT_SETTINGS period1) = Rejected
   \<and> speak_throws no_speech"
proof -
  have c1: "chime no_key \<noteq> ChimeThrows" "chime no_key \<noteq> ChimeNeverSettles"
    by (simp_all add: no_key_def)
  have g1: "snd (generateAnnouncementAudio no_key (announcement_text period1) (voiceName DEFAULT_SETTINGS))
              = Resolved None"
    by (simp add: generateAnnouncementAudio_def no_key_def)
  have c2: "chime bad_audio \<noteq> ChimeThrows" "chime bad_audio \<noteq> ChimeNeverSettles"
    by (simp_all add: bad_audio_def)
  have g2: "snd (generateAnnouncementAudio bad_audio (announcement_text period1) (voiceName DEFAULT_SETTINGS))
              = Resolved (Some ''UklGRg=='')"
    by (simp add: generateAnnouncementAudio_def bad_audio_def)
  have p2: "snd (playAudioFromBase64 bad_audio ''UklGRg=='') = Rejected"
    by (simp add: playAudioFromBase64_def Let_def bad_audio_def)
  have c3: "chime browser_ok \<noteq> ChimeThrows" "chime browser_ok \<noteq> ChimeNeverSettles"
    by (simp_all add: browser_ok_def)
  have g3: "snd (generateAnnouncementAudio browser_ok (announcement_text period1) (voiceName DEFAULT_SETTINGS))
              = Resolved (Some ''UklGRg=='')"
    by (simp add: generateAnnouncementAudio_def browser_ok_def)
  have p3: "snd (playAudioFromBase64 browser_ok ''UklGRg=='') = Resolved ()"
    by (simp add: playAudioFromBase64_def Let_def browser_ok_def)
  have c4: "chime no_speech \<noteq> ChimeThrows" "chime no_speech \<noteq> ChimeNeverSettles"
    by (simp_all add: no_speech_def)
  have g4: "snd (generateAnnouncementAudio no_speech (announcement_text period1) (voiceName DEFAULT_SETTINGS))
              = Resolved None"
    by (simp add: generateAnnouncementAudio_def no_speech_def)
  have r4: "snd (try_block no_speech DEFAULT_SETTINGS period1) = Rejected"
    by (simp add: try_block_def generateAnnouncementAudio_def browser_tts_def Let_def no_speech_def)
  from fallback_speech [OF c1 g1] fallback_speech [OF c2 g2] fallback_speech [OF c3 g3]
    fallback_speech [OF c4 g4] c1 c2 c3 c4 g1 g2 g3 g4 p2 p3 r4
  show ?thesis by simp
qed

section \<open>The test button\<close>

text \<open>
  Claim C10. \<^verbatim>\<open>triggerBell\<close> never reads \<open>isActive\<close>: with no sequence in flight the
  test button starts the sequence for any entry, and the call does the same for the entry
  with the flag set either way. When the chime settles and every awaited promise settles,
  the call plays the chime first and then either the synthesized audio or the browser
  voice with the composed text, and returns.
\<close>

theorem manual_test_ignores_isActive:
  assumes "\<not> isAnnouncing s"
  shows "step (TestBell item) \<lparr>app = s, timer = r\<rparr>
           = (\<lparr>app = s\<lparr>isAnnouncing := True\<rparr>, timer = r\<rparr>, [Manual item])
       \<and> triggerBell e (item\<lparr>isActive := b\<rparr>) s s = triggerBell e item s s
       \<and> fst (snd (triggerBell e item s s)) = fst (try_catch e (settings s) item)
       \<and> (chime e \<noteq> ChimeThrows \<and> chime e \<noteq> ChimeNeverSettles
            \<and> (\<forall>t v. generateContent e t v \<noteq> Pending) \<and> (\<forall>src. audio e src \<noteq> AudioNeverSettles)
          \<longrightarrow> snd (snd (triggerBell e item s s))
              \<and> (\<exists>fx. fst (snd (triggerBell e item s s)) = ChimePlay CHIME_URL # fx
                    \<and> ((\<exists>d. snd (generateAnnouncementAudio e (announcement_text item)
                                   (voiceName (settings s))) = Resolved (Some d)
                              \<and> AudioPlay (''data:audio/mpeg;base64,'' @ d) \<in> set fx)
                         \<or> Speak (announcement_text item) ''id-ID'' \<in> set fx)))"
proof -
  have a: "step (TestBell item) \<lparr>app = s, timer = r\<rparr>
           = (\<lparr>app = s\<lparr>isAnnouncing := True\<rparr>, timer = r\<rparr>, [Manual item])"
    using assms by (simp add: triggerBell_begin_def commit_def)
  have b: "triggerBell e (item\<lparr>isActive := b\<rparr>) s s = triggerBell e item s s"
    unfolding triggerBell_def try_catch_def try_block_isActive ..
  have c: "fst (snd (triggerBell e item s s)) = fst (try_catch e (settings s) item)"
    using assms by (simp add: triggerBell_def triggerBell_begin_def split: prod.splits bool.splits)
  have d: "snd (snd (triggerBell e item s s))
              \<and> (\<exists>fx. fst (snd (triggerBell e item s s)) = ChimePlay CHIME_URL # fx
                    \<and> ((\<exists>d. snd (generateAnnouncementAudio e (announcement_text item)
                                   (voiceName (settings s))) = Resolved (Some d)
                              \<and> AudioPlay (''data:audio/mpeg;base64,'' @ d) \<in> set fx)
                         \<or> Speak (announcement_text item) ''id-ID'' \<in> set fx))"
    if h: "chime e \<noteq> ChimeThrows" "chime e \<noteq> ChimeNeverSettles"
       "\<forall>t v. generateContent e t v \<noteq> Pending" "\<forall>src. audio e src \<noteq> AudioNeverSettles"
  proof -
    have r: "snd (snd (triggerBell e item s s))"
      using try_block_not_pending [OF h(2,3,4), of "settings s" item] assms
      by (cases "try_block e (settings s) item"; cases "snd (try_block e (settings s) item)")
         (simp_all add: triggerBell_def triggerBell_begin_def try_catch_def)
    obtain fx1 r1 where g: "generateAnnouncementAudio e (announcement_text item) (voiceName (settings s)) = (fx1, r1)"
      by (cases "generateAnnouncementAudio e (announcement_text item) (voiceName (settings s))") simp
    have r1: "r1 \<noteq> Pending" "r1 \<noteq> Rejected"
      using g h(3) by (auto simp: generateAnnouncementAudio_def split: promise.splits if_splits)
    then obtain a where ra: "r1 = Resolved a" by (cases r1) simp_all
    have pl: "AudioPlay (''data:audio/mpeg;base64,'' @ d) \<in> set (fst (playAudioFromBase64 e d))
               \<or> snd (playAudioFromBase64 e d) = Rejected" if "d \<noteq> []" for d
      using that h(4) by (auto simp: playAudioFromBase64_def Let_def split: audio_outcome.splits)
    have "\<exists>fx. fst (try_catch e (settings s) item) = ChimePlay CHIME_URL # fx
            \<and> ((\<exists>d. r1 = Resolved (Some d) \<and> AudioPlay (''data:audio/mpeg;base64,'' @ d) \<in> set fx)
                 \<or> Speak (announcement_text item) ''id-ID'' \<in> set fx)"
    proof (cases "truthy a")
      case False
      then show ?thesis
        by (simp add: try_catch_def try_block_settled_chime [OF h(1,2)] Let_def g ra browser_tts_def)
    next
      case True
      then obtain d where d: "a = Some d" "d \<noteq> []" by (cases a) simp_all
      obtain fx2 r2 where p: "playAudioFromBase64 e d = (fx2, r2)"
        by (cases "playAudioFromBase64 e d") simp
      from pl [OF d(2)] p show ?thesis
        by (cases r2)
           (auto simp: try_catch_def try_block_settled_chime [OF h(1,2)] Let_def g ra d
              browser_tts_def)
    qed
    with r c g show ?thesis by simp
  qed
  from a b c d show ?thesis by blast
qed

theorem manual_test_ignores_isActive_witness:
  "\<not> isAnnouncing (updateSettings (DEFAULT_SETTINGS\<lparr>isAutoEnabled := False\<rparr>) morning)
   \<and> \<not> isActive (period1\<lparr>isActive := False\<rparr>)
   \<and> chime browser_ok \<noteq> ChimeThrows \<and> chime browser_ok \<noteq> ChimeNeverSettles
   \<and> (\<forall>t v. generateContent browser_ok t v \<noteq> Pending)
   \<and> (\<forall>src. audio browser_ok src \<noteq> AudioNeverSettles)
   \<and> snd (step (TestBell (period1\<lparr>isActive := False\<rparr>))
        \<lparr>app = updateSettings (DEFAULT_SETTINGS\<lparr>isAutoEnabled := False\<rparr>) morning, timer = morning\<rparr>)
      = [Manual (period1\<lparr>isActive := False\<rparr>)]
   \<and> snd (snd (triggerBell browser_ok (period1\<lparr>isActive := False\<rparr>)
        (updateSettings (DEFAULT_SETTINGS\<lparr>isAutoEnabled := False\<rparr>) morning)
        (updateSettings (DEFAULT_SETTINGS\<lparr>isAutoEnabled := False\<rparr>) morning)))
   \<and> fst (snd (triggerBell browser_ok (period1\<lparr>isActive := False\<rparr>)
        (updateSettings (DEFAULT_SETTINGS\<lparr>isAutoEnabled := False\<rparr>) morning)
        (updateSettings (DEFAULT_SETTINGS\<lparr>isAutoEnabled := False\<rparr>) morning)))
      = [ChimePlay CHIME_URL, SynthRequest (announcement_text period1) Kore,
         AudioLoad ''data:audio/mpeg;base64,UklGRg=='', AudioPlay ''data:audio/mpeg;base64,UklGRg=='']"
proof -
  let ?s = "updateSettings (DEFAULT_SETTINGS\<lparr>isAutoEnabled := False\<rparr>) morning"
  have h: "\<not> isAnnouncing ?s" by (simp add: updateSettings_def morning_def)
  have e: "chime browser_ok \<noteq> ChimeThrows \<and> chime browser_ok \<noteq> ChimeNeverSettles
     \<and> (\<forall>t v. generateContent browser_ok t v \<noteq> Pending)
     \<and> (\<forall>src. audio browser_ok src \<noteq> AudioNeverSettles)"
    by (simp add: browser_ok_def)
  have v: "fst (try_catch browser_ok (settings ?s) period1)
      = [ChimePlay CHIME_URL, SynthRequest (announcement_text period1) Kore,
         AudioLoad ''data:audio/mpeg;base64,UklGRg=='', AudioPlay ''data:audio/mpeg;base64,UklGRg=='']"
    by (simp add: try_catch_def try_block_def generateAnnouncementAudio_def playAudioFromBase64_def
        Let_def browser_ok_def updateSettings_def DEFAULT_SETTINGS_def)
  from manual_test_ignores_isActive [OF h, where e = browser_ok and item = "period1\<lparr>isActive := False\<rparr>"
      and b = True and r = morning]
    manual_test_ignores_isActive [OF h, where e = browser_ok and item = period1 and b = False
      and r = morning]
    h e v
  show ?thesis by simp
qed

section \<open>The schedule after the initial fetch\<close>

lemma fetch_remote_fails:
  "schedules_read_fails c \<or> settings_read_fails c \<Longrightarrow>
     \<exists>s1. fetch_remote c s = Inl s1 \<and> (schedules_read_fails c \<longrightarrow> s1 = s)"
  by (auto simp: fetch_remote_def schedules_read_fails_def settings_read_fails_def Let_def
      split: answer.splits option.splits)

lemma fetch_remote_no_rows:
  "\<not> schedules_read_fails c \<Longrightarrow> \<not> settings_read_fails c \<Longrightarrow> schedules_no_rows c \<Longrightarrow>
     \<exists>s1. fetch_remote c s = Inr s1 \<and> schedule s1 = DEFAULT_SCHEDULE"
  by (auto simp: fetch_remote_def schedules_read_fails_def settings_read_fails_def
      schedules_no_rows_def Let_def split: answer.splits option.splits)

text \<open>
  Claim C7, as amended. Without a client the schedule is the local snapshot when there is
  one and the built-in defaults when there is none. When a remote read fails and there is
  a local snapshot, the schedule is the snapshot. When the remote reads succeed and the
  schedule table has no rows, the schedule is the built-in defaults, whatever the local
  slot holds. (A slot that does not parse makes the fetch throw.)
\<close>

theorem startup_schedule:
  "loaded_schedule (fetchData None (Stored snap) ss s) = (if ss = Unparsable then None else Some snap)
   \<and> loaded_schedule (fetchData None NoEntry ss s)
       = (if ss = Unparsable then None else Some DEFAULT_SCHEDULE)
   \<and> (schedules_read_fails c \<or> settings_read_fails c \<longrightarrow>
        loaded_schedule (fetchData (Some c) (Stored snap) ss s)
          = (if ss = Unparsable then None else Some snap))
   \<and> (\<not> schedules_read_fails c \<and> \<not> settings_read_fails c \<and> schedules_no_rows c \<longrightarrow>
        loaded_schedule (fetchData (Some c) sl ss s) = Some DEFAULT_SCHEDULE)"
proof -
  have a: "loaded_schedule (fetchData None (Stored snap) ss s)
             = (if ss = Unparsable then None else Some snap)"
    by (cases ss) (simp_all add: fetchData_def load_localStorage_def loaded_schedule_def Let_def)
  have b: "loaded_schedule (fetchData None NoEntry ss s)
             = (if ss = Unparsable then None else Some DEFAULT_SCHEDULE)"
    by (cases ss) (simp_all add: fetchData_def load_localStorage_def loaded_schedule_def Let_def)
  have c: "loaded_schedule (fetchData (Some c) (Stored snap) ss s)
             = (if ss = Unparsable then None else Some snap)"
    if "schedules_read_fails c \<or> settings_read_fails c"
  proof -
    from fetch_remote_fails [OF that] obtain s1
      where "fetch_remote c (s\<lparr>isLoading := True\<rparr>) = Inl s1" by blast
    then show ?thesis
      by (cases ss)
         (simp_all add: fetchData_def fallback_to_localStorage_def loaded_schedule_def Let_def)
  qed
  have d: "loaded_schedule (fetchData (Some c) sl ss s) = Some DEFAULT_SCHEDULE"
    if "\<not> schedules_read_fails c" "\<not> settings_read_fails c" "schedules_no_rows c"
  proof -
    from fetch_remote_no_rows [OF that] obtain s1
      where "fetch_remote c (s\<lparr>isLoading := True\<rparr>) = Inr s1" "schedule s1 = DEFAULT_SCHEDULE"
      by blast
    then show ?thesis
      by (simp add: fetchData_def loaded_schedule_def Let_def)
  qed
  from a b c d show ?thesis by blast
qed

theorem startup_schedule_witness:
  "schedules_read_fails failing_remote
   \<and> loaded_schedule (fetchData (Some failing_remote) (Stored snapshot) NoEntry (initial_state seven))
       = Some snapshot
   \<and> \<not> schedules_read_fails empty_remote \<and> \<not> settings_read_fails empty_remote
   \<and> schedules_no_rows empty_remote
   \<and> loaded_schedule (fetchData (Some empty_remote) (Stored snapshot) NoEntry (initial_state seven))
       = Some DEFAULT_SCHEDULE
   \<and> loaded_schedule (fetchData None (Stored snapshot) NoEntry (initial_state seven)) = Some snapshot
   \<and> loaded_schedule (fetchData None NoEntry NoEntry (initial_state seven)) = Some DEFAULT_SCHEDULE"
proof -
  have f: "schedules_read_fails failing_remote"
    by (simp add: schedules_read_fails_def failing_remote_def)
  have e: "\<not> schedules_read_fails empty_remote \<and> \<not> settings_read_fails empty_remote
     \<and> schedules_no_rows empty_remote"
    by (simp add: schedules_read_fails_def settings_read_fails_def schedules_no_rows_def
        empty_remote_def)
  from startup_schedule [where c = failing_remote and snap = snapshot and ss = NoEntry
      and s = "initial_state seven"]
    startup_schedule [where c = empty_remote and snap = snapshot and ss = NoEntry
      and sl = "Stored snapshot" and s = "initial_state seven"] f e
  show ?thesis by simp
qed

text \<open>
  As stated the claim fails twice. A remote table without rows seeds the defaults although
  a local snapshot exists; and a remote read that fails when there is no local snapshot
  leaves the schedule empty instead of seeding the defaults.
\<close>

theorem startup_no_rows_counterexample:
  "loaded_schedule (fetchData (Some empty_remote) (Stored snapshot) NoEntry (initial_state seven))
     = Some DEFAULT_SCHEDULE
   \<and> DEFAULT_SCHEDULE \<noteq> snapshot
   \<and> loaded_schedule (fetchData (Some failing_remote) NoEntry NoEntry (initial_state seven))
     = Some []
   \<and> DEFAULT_SCHEDULE \<noteq> []"
  by code_simp

section \<open>The order of the schedule\<close>

lemma find_Some_set: "find P xs = Some x \<Longrightarrow> x \<in> set xs \<and> P x"
  using find_Some_split [of P xs x] by auto

lemma toggle_keeps_startTimes:
  assumes "distinct (map entry_id xs)" and "find (\<lambda>item. entry_id item = i) xs = Some t"
  shows "map startTime (map (\<lambda>item. if entry_id item = i then t\<lparr>isActive := b\<rparr> else item) xs)
           = map startTime xs"
proof -
  from find_Some_set [OF assms(2)] have t: "t \<in> set xs" "entry_id t = i" by simp_all
  have "item = t" if "item \<in> set xs" "entry_id item = i" for item
    using that t assms(1) by (auto simp: distinct_map dest: inj_onD)
  then have "startTime (if entry_id item = i then t\<lparr>isActive := b\<rparr> else item) = startTime item"
    if "item \<in> set xs" for item
    using that by auto
  then show ?thesis by simp
qed

text \<open>
  The entries of a schedule are told apart by their identifiers (the key of the table
  row and of every update). Every mutation keeps the identifiers pairwise distinct, an
  add provided its fresh identifier is not in use.
\<close>

lemma distinct_map_sort_key:
  "distinct (map f (sort_key g xs)) = distinct (map f xs)"
  by (simp add: distinct_map)

lemma mutations_keep_ids_distinct:
  assumes "distinct (map entry_id (schedule s))"
  shows "fresh \<notin> entry_id ` set (schedule s) \<Longrightarrow>
           distinct (map entry_id (schedule (handleAddSchedule fresh newItem s)))"
    and "distinct (map entry_id (schedule (handleEditSchedule updatedItem s)))"
    and "distinct (map entry_id (schedule (handleDelete i s)))"
    and "distinct (map entry_id (schedule (toggleActive i s)))"
proof -
  show "distinct (map entry_id (schedule (handleAddSchedule fresh newItem s)))"
    if "fresh \<notin> entry_id ` set (schedule s)"
    using assms that by (simp add: handleAddSchedule_def Let_def distinct_map_sort_key)
  have e: "map entry_id (map (\<lambda>item. if entry_id item = entry_id u then u else item) xs)
             = map entry_id xs" for u xs
    by (induction xs) simp_all
  show "distinct (map entry_id (schedule (handleEditSchedule updatedItem s)))"
    using assms by (simp add: handleEditSchedule_def Let_def distinct_map_sort_key e del: map_map)
  show "distinct (map entry_id (schedule (handleDelete i s)))"
    using assms by (simp add: handleDelete_def Let_def distinct_map_filter)
  have t: "map entry_id (map (\<lambda>item. if entry_id item = i then u else item) xs)
             = map entry_id xs" if "entry_id u = i" for u xs
    using that by (induction xs) simp_all
  show "distinct (map entry_id (schedule (toggleActive i s)))"
  proof (cases "find (\<lambda>item. entry_id item = i) (schedule s)")
    case None
    with assms show ?thesis by (simp add: toggleActive_def)
  next
    case (Some x)
    from find_Some_set [OF Some] have "entry_id (x\<lparr>isActive := \<not> isActive x\<rparr>) = i" by simp
    from t [OF this] assms show ?thesis
      by (simp add: toggleActive_def Some Let_def del: map_map)
  qed
qed

text \<open>
  Claim C8. After an add and after an edit the schedule is sorted ascending by
  \<open>startTime\<close>, whatever it was before. A delete keeps a sorted schedule sorted, and so
  does a toggle of the active flag in a schedule whose identifiers are pairwise distinct.
\<close>

theorem mutations_keep_sorted:
  "sorted (map startTime (schedule (handleAddSchedule fresh newItem s)))
   \<and> sorted (map startTime (schedule (handleEditSchedule updatedItem s)))
   \<and> (sorted (map startTime (schedule s)) \<longrightarrow>
        sorted (map startTime (schedule (handleDelete i s)))
        \<and> (distinct (map entry_id (schedule s)) \<longrightarrow>
             sorted (map startTime (schedule (toggleActive i s)))))"
proof -
  have a: "sorted (map startTime (schedule (handleAddSchedule fresh newItem s)))"
    by (simp add: handleAddSchedule_def Let_def)
  have b: "sorted (map startTime (schedule (handleEditSchedule updatedItem s)))"
    by (simp add: handleEditSchedule_def Let_def)
  have c: "sorted (map startTime (schedule (handleDelete i s)))"
    if "sorted (map startTime (schedule s))"
    using that by (simp add: handleDelete_def Let_def sorted_filter)
  have d: "sorted (map startTime (schedule (toggleActive i s)))"
    if srt: "sorted (map startTime (schedule s))" and dist: "distinct (map entry_id (schedule s))"
  proof (cases "find (\<lambda>item. entry_id item = i) (schedule s)")
    case None
    with srt show ?thesis by (simp add: toggleActive_def)
  next
    case (Some t)
    from toggle_keeps_startTimes [OF dist Some] srt show ?thesis
      by (simp add: toggleActive_def Some Let_def del: map_map)
  qed
  from a b c d show ?thesis by blast
qed

theorem mutations_keep_sorted_witness:
  "sorted (map startTime (schedule morning)) \<and> distinct (map entry_id (schedule morning))
   \<and> sorted (map startTime (schedule (handleAddSchedule ''k3j9x0q1z'' twin_a morning)))
   \<and> sorted (map startTime (schedule (handleEditSchedule (period1\<lparr>startTime := ''11:30''\<rparr>) morning)))
   \<and> sorted (map startTime (schedule (handleDelete ''3'' morning)))
   \<and> sorted (map startTime (schedule (toggleActive ''3'' morning)))"
proof -
  have h: "sorted (map startTime (schedule morning))" "distinct (map entry_id (schedule morning))"
    by code_simp+
  from mutations_keep_sorted [where s = morning and fresh = "''k3j9x0q1z''" and newItem = twin_a
      and updatedItem = "period1\<lparr>startTime := ''11:30''\<rparr>" and i = "''3''"] h
  show ?thesis by simp
qed

section \<open>The next bell\<close>

lemma find_filter: "find P xs = (case filter P xs of [] \<Rightarrow> None | x # _ \<Rightarrow> Some x)"
  by (induction xs) simp_all

lemma find_filter_conj: "find Q (filter P xs) = find (\<lambda>y. P y \<and> Q y) xs"
  by (induction xs) simp_all

lemma sort_key_head:
  assumes "sort_key f xs = y # ys"
  shows "y \<in> set xs \<and> (\<forall>z\<in>set xs. f y \<le> f z) \<and> find (\<lambda>z. f z = f y) xs = Some y"
proof -
  have "set (sort_key f xs) = set xs" by (rule set_sort)
  with assms have s: "set xs = insert y (set ys)" by simp
  have "sorted (map f (sort_key f xs))" by (rule sorted_sort_key)
  with assms have le: "\<forall>z\<in>set ys. f y \<le> f z" by simp
  have "filter (\<lambda>z. f z = f y) (sort_key f xs) = filter (\<lambda>z. f z = f y) xs"
    by (rule sort_key_stable)
  with assms have "filter (\<lambda>z. f z = f y) xs = y # filter (\<lambda>z. f z = f y) ys" by simp
  then have fnd: "find (\<lambda>z. f z = f y) xs = Some y" by (simp add: find_filter)
  from s have "y \<in> set xs" by simp
  moreover from s le have "\<forall>z\<in>set xs. f y \<le> f z" by simp
  ultimately show ?thesis using fnd by simp
qed

lemma nextBell_None: "nextBell s = None \<longleftrightarrow> filter (\<lambda>i. isActive i \<and> format_HHmm (currentTime s) < startTime i) (schedule s) = []"
proof -
  let ?P = "\<lambda>i. isActive i \<and> format_HHmm (currentTime s) < startTime i"
  let ?c = "filter ?P (schedule s)"
    have "length (sort_key startTime ?c) = length ?c"
      by (rule length_sort)
    then have "sort_key startTime ?c = [] \<longleftrightarrow> ?c = []"
      by (simp only: flip: length_0_conv)
    then show ?thesis
      by (cases "sort_key startTime ?c") (simp_all add: nextBell_def)
qed

lemma nextBell_None_iff:
  "nextBell s = None \<longleftrightarrow>
      \<not> (\<exists>i\<in>set (schedule s). isActive i \<and> format_HHmm (currentTime s) < startTime i)"
  by (simp add: nextBell_None filter_empty_conv)

lemma nextBell_Some:
  assumes "nextBell s = Some x"
  shows "x \<in> set (schedule s) \<and> isActive x \<and> format_HHmm (currentTime s) < startTime x
         \<and> (\<forall>y\<in>set (schedule s).
               isActive y \<and> format_HHmm (currentTime s) < startTime y \<longrightarrow> startTime x \<le> startTime y)
         \<and> find (\<lambda>y. isActive y \<and> format_HHmm (currentTime s) < startTime y
                      \<and> startTime y = startTime x) (schedule s) = Some x"
proof -
  let ?P = "\<lambda>i. isActive i \<and> format_HHmm (currentTime s) < startTime i"
  let ?c = "filter ?P (schedule s)"
    from assms obtain ys where "sort_key startTime ?c = x # ys"
      by (cases "sort_key startTime ?c") (simp_all add: nextBell_def)
    from sort_key_head [OF this]
    have x: "x \<in> set ?c" and le: "\<forall>z\<in>set ?c. startTime x \<le> startTime z"
      and f: "find (\<lambda>z. startTime z = startTime x) ?c = Some x" by simp_all
    from x have x1: "x \<in> set (schedule s)" "?P x" by simp_all
    from le have le1: "\<forall>y\<in>set (schedule s). ?P y \<longrightarrow> startTime x \<le> startTime y" by simp
    from f have f1: "find (\<lambda>y. ?P y \<and> startTime y = startTime x) (schedule s) = Some x"
      by (simp only: find_filter_conj)
    from x1 le1 f1 show ?thesis
      by (simp only: conj_assoc simp_thms)
qed

text \<open>
  Claim C9. \<open>nextBell\<close> is none exactly when no active entry starts strictly after the
  current \<^verbatim>\<open>HH:mm\<close> string. Otherwise it is an active entry of the schedule that
  starts strictly after it, no such entry starts earlier, and among the entries with that
  start time it is the first of the schedule.
\<close>

theorem nextBell_is_earliest_later:
  "(nextBell s = None \<longleftrightarrow>
      \<not> (\<exists>i\<in>set (schedule s). isActive i \<and> format_HHmm (currentTime s) < startTime i))
   \<and> (\<forall>x. nextBell s = Some x \<longrightarrow>
         x \<in> set (schedule s) \<and> isActive x \<and> format_HHmm (currentTime s) < startTime x
         \<and> (\<forall>y\<in>set (schedule s).
               isActive y \<and> format_HHmm (currentTime s) < startTime y \<longrightarrow> startTime x \<le> startTime y)
         \<and> find (\<lambda>y. isActive y \<and> format_HHmm (currentTime s) < startTime y
                      \<and> startTime y = startTime x) (schedule s) = Some x)"
proof (intro conjI allI impI)
  show "nextBell s = None \<longleftrightarrow>
      \<not> (\<exists>i\<in>set (schedule s). isActive i \<and> format_HHmm (currentTime s) < startTime i)"
    by (rule nextBell_None_iff)
next
  fix x assume "nextBell s = Some x"
  note r = nextBell_Some [OF this]
  from r show "x \<in> set (schedule s)" by (rule conjunct1)
  from r show "isActive x" by simp
  from r show "format_HHmm (currentTime s) < startTime x" by simp
  from r show "\<forall>y\<in>set (schedule s).
     isActive y \<and> format_HHmm (currentTime s) < startTime y \<longrightarrow> startTime x \<le> startTime y"
    by simp
  from r show "find (\<lambda>y. isActive y \<and> format_HHmm (currentTime s) < startTime y
                      \<and> startTime y = startTime x) (schedule s) = Some x"
    by simp
qed

theorem nextBell_is_earliest_later_witness:
  "nextBell morning = Some period1
   \<and> period1 \<in> set (schedule morning) \<and> isActive period1
   \<and> format_HHmm (currentTime morning) < startTime period1
   \<and> find (\<lambda>y. isActive y \<and> format_HHmm (currentTime morning) < startTime y
                \<and> startTime y = startTime period1) (schedule morning) = Some period1
   \<and> nextBell (morning\<lparr>currentTime := \<lparr>hour = 10, minute = 15, second = 0\<rparr>\<rparr>) = None"
proof -
  have a: "nextBell morning = Some period1" by code_simp
  have b: "nextBell (morning\<lparr>currentTime := \<lparr>hour = 10, minute = 15, second = 0\<rparr>\<rparr>) = None"
    by code_simp
  from nextBell_is_earliest_later [of morning]
    nextBell_is_earliest_later [of "morning\<lparr>currentTime := \<lparr>hour = 10, minute = 15, second = 0\<rparr>\<rparr>"]
    a b
  show ?thesis by simp
qed

end
